theory Spec2Isabelle
  imports Main "HOL-Library.AList"
begin

section \<open>Paths\<close>

text \<open>
  A path is modelled by the name of the file inside the directory that holds it; names
  are compared as they are written and are not empty (pathlib rejects an empty name).
  \<open>suffix_of\<close>, \<open>stem\<close> and \<open>with_suffix\<close> follow pathlib: the suffix starts at the last
  dot of the name, unless that dot is the first or the last character.
\<close>

type_synonym path = string

fun rfind :: "char \<Rightarrow> string \<Rightarrow> int" where
  "rfind c [] = - 1"
| "rfind c (x # xs) =
     (let r = rfind c xs in if 0 \<le> r then r + 1 else if x = c then 0 else - 1)"

definition suffix_of :: "path \<Rightarrow> string" where
  "suffix_of p =
     (let i = rfind (CHR ''.'') p
      in if 0 < i \<and> i < int (length p) - 1 then drop (nat i) p else [])"

definition stem :: "path \<Rightarrow> string" where
  "stem p =
     (let i = rfind (CHR ''.'') p
      in if 0 < i \<and> i < int (length p) - 1 then take (nat i) p else p)"

definition with_suffix :: "path \<Rightarrow> string \<Rightarrow> path" where
  "with_suffix p suffix =
     (let old_suffix = suffix_of p
      in if old_suffix = [] then p @ suffix
         else take (length p - length old_suffix) p @ suffix)"

section \<open>Directories\<close>

text \<open>
  A directory is the list of its entries in the order \<open>iterdir\<close> yields them. An entry is
  a regular file, with its content and whether a running process holds it open (Windows
  then refuses to remove or overwrite it), or a subdirectory.
\<close>

datatype node = File string bool | Dir

type_synonym directory = "(path \<times> node) list"

datatype error =
    Exit nat
  | FileNotFoundError path
  | PermissionError path
  | TypeError
  | VersionNotFoundError string
  | DownloadIntegrityError string string

fun is_OSError :: "error \<Rightarrow> bool" where
  "is_OSError (FileNotFoundError p) = True"
| "is_OSError (PermissionError p) = True"
| "is_OSError e = False"

definition exists :: "directory \<Rightarrow> path \<Rightarrow> bool" where
  "exists d p = (map_of d p \<noteq> None)"

definition iterdir :: "directory \<Rightarrow> path list" where
  "iterdir d = map fst d"

text \<open>\<open>p.unlink()\<close>: removes a regular file that is not in use, fails otherwise.\<close>

definition unlink :: "directory \<Rightarrow> path \<Rightarrow> error + directory" where
  "unlink d p =
     (case map_of d p of
        None \<Rightarrow> Inl (FileNotFoundError p)
      | Some Dir \<Rightarrow> Inl (PermissionError p)
      | Some (File c u) \<Rightarrow> if u then Inl (PermissionError p) else Inr (AList.delete p d))"

text \<open>
  Opening \<open>p\<close> for writing and writing \<open>text\<close> (\<open>write_text\<close>, \<open>open('wb')\<close> and
  \<open>write\<close>): creates or replaces the file; fails on a subdirectory and on a file in use.
\<close>

definition write_text :: "directory \<Rightarrow> path \<Rightarrow> string \<Rightarrow> error + directory" where
  "write_text d p text =
     (case map_of d p of
        None \<Rightarrow> Inr (AList.update p (File text False) d)
      | Some Dir \<Rightarrow> Inl (PermissionError p)
      | Some (File c u) \<Rightarrow>
          if u then Inl (PermissionError p) else Inr (AList.update p (File text False) d))"

text \<open>
  \<open>shutil.copy2(source, p)\<close> for a source file outside the directory, given by its
  content. When \<open>p\<close> is a subdirectory the copy lands inside it, and the entries of the
  directory itself stay as they are.
\<close>

definition copy2 :: "string \<Rightarrow> directory \<Rightarrow> path \<Rightarrow> error + directory" where
  "copy2 source d p =
     (case map_of d p of
        None \<Rightarrow> Inr (AList.update p (File source False) d)
      | Some Dir \<Rightarrow> Inr d
      | Some (File c u) \<Rightarrow>
          if u then Inl (PermissionError p) else Inr (AList.update p (File source False) d))"

section \<open>State\<close>

text \<open>
  Every \<open>click.echo\<close> of operations.py is one message, carrying the values formatted
  into its text; a version is shown by its name.
\<close>

datatype message =
    Publishing_version string
  | Published string
  | Removing_scripts
  | No_active_versions
  | Unlinking string
  | Failed_to_remove path
  | Deactivating string
  | No_such_version string
  | Note_selecting string string

text \<open>
  \<open>files\<close> is the directory that commands are published into: for \<open>activate\<close> the shared
  scripts directory \<open>configs.get_scripts_dir_path()\<close>, for \<open>unlink_commands\<close> the directory
  that holds the version's pinned commands. \<open>python_versions\<close> is the text of the file
  \<open>configs.get_python_versions_path()\<close> (\<open>None\<close> when there is no such file), which lies
  outside that directory, and \<open>console\<close> is what has been printed.
\<close>

record state =
  files :: directory
  python_versions :: "string option"
  console :: "message list"

definition echo :: "message \<Rightarrow> state \<Rightarrow> state" where
  "echo m s = s\<lparr>console := console s @ [m]\<rparr>"

section \<open>Versions\<close>

datatype installer_type = cpython_msi | cpython

text \<open>
  What \<open>version.get_installation()\<close> returns: the interpreter's path and the listing of
  the installation's own scripts directory (\<open>None\<close> when it is not a directory). The
  installation lies outside the directory that commands are published into.
\<close>

record installation =
  python :: string
  scripts_dir :: "directory option"

text \<open>
  The fields of \<open>Version\<close> in versions.py, the class chosen by \<open>installer_type\<close>, and the
  attributes operations.py reads from a version that versions.py does not declare
  (\<open>major_version\<close>, \<open>get_installation()\<close>, \<open>python_commands\<close>, \<open>pip_commands\<close>).
\<close>

record version =
  name :: string
  url :: string
  md5_sum :: string
  version_info :: "int list"
  installer :: installer_type
  major_version :: string
  get_installation :: installation
  python_commands :: "path list"
  pip_commands :: "path list"

text \<open>
  The host: \<open>metadata.can_install_64bit()\<close>, the JSON files of \<open>VERSIONS_DIR_PATH\<close> by
  name, the content of the dispatcher binary at \<open>configs.get_generic_shim_path()\<close>, and
  the position of a string in the iteration order of a Python set (decided by its hash).
\<close>

record host =
  can_install_64bit :: bool
  catalog :: "string \<Rightarrow> version option"
  generic_shim :: string
  set_order :: "string \<Rightarrow> nat"

subsection \<open>versions.py\<close>

definition save_installer ::
    "(string \<Rightarrow> string) \<Rightarrow> version \<Rightarrow> string \<Rightarrow> path \<Rightarrow> directory \<Rightarrow> (error + unit) \<times> directory" where
  "save_installer md5 self data into_path d =
     (let checksum = md5 data
      in if checksum \<noteq> md5_sum self
         then (Inl (DownloadIntegrityError (md5_sum self) checksum), d)
         else (case write_text d into_path data of
                 Inl e \<Rightarrow> (Inl e, d)
               | Inr d' \<Rightarrow> (Inr (), d')))"

definition versions_get_version :: "(string \<Rightarrow> version option) \<Rightarrow> string \<Rightarrow> error + version" where
  "versions_get_version cat n =
     (case cat n of
        None \<Rightarrow> Inl (VersionNotFoundError n)
      | Some data \<Rightarrow> Inr (data\<lparr>name := n\<rparr>))"

text \<open>
  A call of \<open>versions.get_version\<close> with keyword arguments besides \<open>name\<close>. The function
  declares the single parameter \<open>name\<close>, so Python rejects any further keyword with
  TypeError before the body runs.
\<close>

definition call_versions_get_version ::
    "(string \<Rightarrow> version option) \<Rightarrow> string \<Rightarrow> (string \<times> bool) list \<Rightarrow> error + version" where
  "call_versions_get_version cat n keywords =
     (if keywords = [] then versions_get_version cat n else Inl TypeError)"

subsection \<open>operations.py\<close>

definition get_version :: "host \<Rightarrow> string \<Rightarrow> state \<Rightarrow> (error + version) \<times> state" where
  "get_version h n s =
     (let force_32 = \<not> can_install_64bit h
      in case call_versions_get_version (catalog h) n [(''force_32'', force_32)] of
           Inl (VersionNotFoundError x) \<Rightarrow> (Inl (Exit 1), echo (No_such_version n) s)
         | Inl e \<Rightarrow> (Inl e, s)
         | Inr v \<Rightarrow> (Inr v, if name v \<noteq> n then echo (Note_selecting (name v) n) s else s))"

definition publish_shim ::
    "host \<Rightarrow> path \<Rightarrow> string \<Rightarrow> bool \<Rightarrow> bool \<Rightarrow> state \<Rightarrow> (error + unit) \<times> state" where
  "publish_shim h target text overwrite quiet s =
     (if \<not> overwrite \<and> exists (files s) target then (Inr (), s)
      else
        let s1 = (if \<not> quiet then echo (Published target) s else s)
        in case write_text (files s1) (with_suffix target ''.shim'') text of
             Inl e \<Rightarrow> (Inl e, s1)
           | Inr d \<Rightarrow>
               (case copy2 (generic_shim h) d target of
                  Inl e \<Rightarrow> (Inl e, s1\<lparr>files := d\<rparr>)
                | Inr d' \<Rightarrow> (Inr (), s1\<lparr>files := d'\<rparr>)))"

definition publish_file ::
    "string \<Rightarrow> path \<Rightarrow> bool \<Rightarrow> bool \<Rightarrow> state \<Rightarrow> (error + unit) \<times> state" where
  "publish_file source target overwrite quiet s =
     (if \<not> overwrite \<and> exists (files s) target then (Inr (), s)
      else
        let s1 = (if \<not> quiet then echo (Published target) s else s)
        in case copy2 source (files s1) target of
             Inl e \<Rightarrow> (Inl e, s1)
           | Inr d \<Rightarrow> (Inr (), s1\<lparr>files := d\<rparr>))"

definition publish_python_command ::
    "host \<Rightarrow> installation \<Rightarrow> path \<Rightarrow> bool \<Rightarrow> bool \<Rightarrow> state \<Rightarrow> (error + unit) \<times> state" where
  "publish_python_command h inst target overwrite quiet s =
     publish_shim h target (python inst) overwrite quiet s"

text \<open>The loop of \<open>publish_version_scripts\<close> over the installation's scripts.\<close>

fun publish_scripts ::
    "directory \<Rightarrow> bool \<Rightarrow> bool \<Rightarrow> state \<Rightarrow> (error + unit) \<times> state" where
  "publish_scripts [] quiet overwrite s = (Inr (), s)"
| "publish_scripts ((p, nd) # rest) quiet overwrite s =
     (if stem p \<in> {''easy_install'', ''pip''} then publish_scripts rest quiet overwrite s
      else
        case nd of
          Dir \<Rightarrow> publish_scripts rest quiet overwrite s
        | File c u \<Rightarrow>
            (case publish_file c p overwrite quiet s of
               (Inl e, s') \<Rightarrow> (Inl e, s')
             | (Inr _, s') \<Rightarrow> publish_scripts rest quiet overwrite s'))"

definition publish_version_scripts ::
    "host \<Rightarrow> version \<Rightarrow> bool \<Rightarrow> bool \<Rightarrow> state \<Rightarrow> (error + unit) \<times> state" where
  "publish_version_scripts h v quiet overwrite s =
     (let s1 = (if \<not> quiet then echo (Publishing_version (name v)) s else s);
          inst = get_installation v;
          target = ''python'' @ major_version v @ ''.exe''
      in case publish_python_command h inst target overwrite quiet s1 of
           (Inl e, s2) \<Rightarrow> (Inl e, s2)
         | (Inr _, s2) \<Rightarrow>
             (case scripts_dir inst of
                None \<Rightarrow> (Inr (), s2)
              | Some entries \<Rightarrow> publish_scripts entries quiet overwrite s2))"

text \<open>The two loops of \<open>activate\<close>: the teardown and the publishing of each version.\<close>

fun unlink_all :: "path list \<Rightarrow> directory \<Rightarrow> (error + unit) \<times> directory" where
  "unlink_all [] d = (Inr (), d)"
| "unlink_all (p # ps) d =
     (case unlink d p of
        Inl e \<Rightarrow> (Inl e, d)
      | Inr d' \<Rightarrow> unlink_all ps d')"

fun publish_all :: "host \<Rightarrow> version list \<Rightarrow> bool \<Rightarrow> state \<Rightarrow> (error + unit) \<times> state" where
  "publish_all h [] quiet s = (Inr (), s)"
| "publish_all h (v # vs) quiet s =
     (case publish_version_scripts h v quiet False s of
        (Inl e, s') \<Rightarrow> (Inl e, s')
      | (Inr _, s') \<Rightarrow> publish_all h vs quiet s')"

fun join :: "string \<Rightarrow> string list \<Rightarrow> string" where
  "join sep [] = []"
| "join sep [x] = x"
| "join sep (x # y # ys) = x @ sep @ join sep (y # ys)"

definition activate ::
    "host \<Rightarrow> version list \<Rightarrow> bool \<Rightarrow> bool \<Rightarrow> state \<Rightarrow> (error + unit) \<times> state" where
  "activate h versions allow_empty quiet s =
     (if \<not> allow_empty \<and> versions = [] then (Inl (Exit 1), echo No_active_versions s)
      else
        let s1 = (if \<not> quiet then echo Removing_scripts s else s)
        in case unlink_all (iterdir (files s1)) (files s1) of
             (Inl e, d) \<Rightarrow> (Inl e, s1\<lparr>files := d\<rparr>)
           | (Inr _, d) \<Rightarrow>
               (case publish_all h versions quiet (s1\<lparr>files := d\<rparr>) of
                  (Inl e, s2) \<Rightarrow> (Inl e, s2)
                | (Inr _, s2) \<Rightarrow>
                    (Inr (), s2\<lparr>python_versions := Some (join ''\<newline>'' (map name versions))\<rparr>)))"

definition safe_unlink :: "path \<Rightarrow> state \<Rightarrow> (error + unit) \<times> state" where
  "safe_unlink p s =
     (if exists (files s) p
      then (case unlink (files s) p of
              Inl e \<Rightarrow> if is_OSError e then (Inr (), echo (Failed_to_remove p) s) else (Inl e, s)
            | Inr d \<Rightarrow> (Inr (), s\<lparr>files := d\<rparr>))
      else (Inr (), s))"

fun unlink_each :: "path list \<Rightarrow> state \<Rightarrow> (error + unit) \<times> state" where
  "unlink_each [] s = (Inr (), s)"
| "unlink_each (p # ps) s =
     (case safe_unlink p (echo (Unlinking p) s) of
        (Inl e, s1) \<Rightarrow> (Inl e, s1)
      | (Inr _, s1) \<Rightarrow>
          (case safe_unlink (with_suffix p ''.shim'') s1 of
             (Inl e, s2) \<Rightarrow> (Inl e, s2)
           | (Inr _, s2) \<Rightarrow> unlink_each ps s2))"

definition unlink_commands :: "version \<Rightarrow> state \<Rightarrow> (error + unit) \<times> state" where
  "unlink_commands v s = unlink_each (python_commands v @ pip_commands v) s"

text \<open>
  \<open>content.split()\<close>: the words between runs of whitespace. Characters are code points
  below 256, of which Python counts these as whitespace.
\<close>

definition is_space :: "char \<Rightarrow> bool" where
  "is_space c =
     (let k = (of_char c :: nat)
      in (9 \<le> k \<and> k \<le> 13) \<or> (28 \<le> k \<and> k \<le> 32) \<or> k = 133 \<or> k = 160)"

fun split_from :: "string \<Rightarrow> string \<Rightarrow> string list" where
  "split_from word [] = (if word = [] then [] else [rev word])"
| "split_from word (c # cs) =
     (if is_space c
      then (if word = [] then split_from [] cs else rev word # split_from [] cs)
      else split_from (c # word) cs)"

definition split :: "string \<Rightarrow> string list" where
  "split content = split_from [] content"

definition get_active_names :: "state \<Rightarrow> string list" where
  "get_active_names s =
     (case python_versions s of
        None \<Rightarrow> []
      | Some content \<Rightarrow> filter (\<lambda>v. v \<noteq> []) (split content))"

text \<open>
  \<open>set(xs)\<close> followed by an iteration over the set: the distinct elements, in the order
  their hashes put them.
\<close>

definition set_iter :: "(string \<Rightarrow> nat) \<Rightarrow> string list \<Rightarrow> string list" where
  "set_iter key xs = sort_key key (remdups xs)"

text \<open>
  The loop of \<open>update_active_versions\<close> over \<open>remove\<close> (in the order the frozenset yields
  its versions), and its list comprehension of \<open>get_version\<close> calls.
\<close>

fun remove_each :: "version list \<Rightarrow> string list \<Rightarrow> state \<Rightarrow> string list \<times> state" where
  "remove_each [] active_names s = (active_names, s)"
| "remove_each (v # vs) active_names s =
     (if name v \<in> set active_names
      then remove_each vs (remove1 (name v) active_names) (echo (Deactivating (name v)) s)
      else remove_each vs active_names s)"

fun get_version_each :: "host \<Rightarrow> string list \<Rightarrow> state \<Rightarrow> (error + version list) \<times> state" where
  "get_version_each h [] s = (Inr [], s)"
| "get_version_each h (n # ns) s =
     (case get_version h n s of
        (Inl e, s1) \<Rightarrow> (Inl e, s1)
      | (Inr v, s1) \<Rightarrow>
          (case get_version_each h ns s1 of
             (Inl e, s2) \<Rightarrow> (Inl e, s2)
           | (Inr vs, s2) \<Rightarrow> (Inr (v # vs), s2)))"

definition update_active_versions ::
    "host \<Rightarrow> version list \<Rightarrow> state \<Rightarrow> (error + unit) \<times> state" where
  "update_active_versions h remove s =
     (let current_active_names = set_iter (set_order h) (get_active_names s);
          (active_names, s1) = remove_each remove current_active_names s
      in if length current_active_names \<noteq> length active_names
         then (case get_version_each h active_names s1 of
                 (Inl e, s2) \<Rightarrow> (Inl e, s2)
               | (Inr vs, s2) \<Rightarrow> activate h vs True False s2)
         else (Inr (), s1))"

section \<open>Notions used in the statements\<close>

text \<open>An entry that \<open>unlink\<close> removes: a regular file that is not in use.\<close>

definition removable :: "directory \<Rightarrow> path \<Rightarrow> bool" where
  "removable d p = (case map_of d p of Some (File c u) \<Rightarrow> \<not> u | _ \<Rightarrow> False)"

text \<open>A path that can be opened for writing: free, or a regular file that is not in use.\<close>

definition writable :: "directory \<Rightarrow> path \<Rightarrow> bool" where
  "writable d p = (case map_of d p of None \<Rightarrow> True | Some (File c u) \<Rightarrow> \<not> u | Some Dir \<Rightarrow> False)"

text \<open>A directory all of whose entries are regular files not in use.\<close>

definition clean :: "directory \<Rightarrow> bool" where
  "clean d = list_all (\<lambda>e. case snd e of File c u \<Rightarrow> \<not> u | Dir \<Rightarrow> False) d"

definition wf :: "directory \<Rightarrow> bool" where
  "wf d = (clean d \<and> distinct (map fst d))"

text \<open>
  What a version offers to the shared scripts directory, as \<open>publish_version_scripts\<close>
  goes through it: its interpreter command first, published as a copy of the dispatcher,
  then the regular files of its scripts directory other than the bare \<open>pip\<close> and
  \<open>easy_install\<close>, each published as a copy of itself. \<open>offered h v p\<close> is the file the
  version puts under the name \<open>p\<close> when the name is free; the \<open>owner\<close> of a name is
  the first version of the list that offers it.
\<close>

definition python_command :: "version \<Rightarrow> path" where
  "python_command v = ''python'' @ major_version v @ ''.exe''"

fun script_offers :: "directory \<Rightarrow> directory" where
  "script_offers [] = []"
| "script_offers ((p, nd) # rest) =
     (if stem p \<in> {''easy_install'', ''pip''} then script_offers rest
      else case nd of
             Dir \<Rightarrow> script_offers rest
           | File c u \<Rightarrow> (p, File c False) # script_offers rest)"

definition offered :: "host \<Rightarrow> version \<Rightarrow> path \<Rightarrow> node option" where
  "offered h v p =
     (if p = python_command v then Some (File (generic_shim h) False)
      else case scripts_dir (get_installation v) of
             None \<Rightarrow> None
           | Some entries \<Rightarrow> map_of (script_offers entries) p)"

fun owner :: "host \<Rightarrow> version list \<Rightarrow> path \<Rightarrow> version option" where
  "owner h [] p = None"
| "owner h (v # vs) p = (if offered h v p \<noteq> None then Some v else owner h vs p)"

section \<open>Example data\<close>

fun first_code :: "string \<Rightarrow> nat" where
  "first_code [] = 0"
| "first_code (c # cs) = of_char c"

definition example_version :: "string \<Rightarrow> string \<Rightarrow> directory option \<Rightarrow> version" where
  "example_version n major scripts =
     \<lparr>name = n, url = ''https://www.python.org/ftp/python/'' @ n, md5_sum = ''d41d8cd9'',
      version_info = [], installer = cpython, major_version = major,
      get_installation = \<lparr>python = ''Python'' @ n @ ''/python.exe'', scripts_dir = scripts\<rparr>,
      python_commands = [''python'' @ n @ ''.exe''],
      pip_commands = [''pip'' @ n @ ''.exe'']\<rparr>"

definition example_host :: host where
  "example_host =
     \<lparr>can_install_64bit = False,
      catalog = [''3.6.3'' \<mapsto> example_version ''3.6.3'' ''3'' None,
                 ''3.6.3-32'' \<mapsto> example_version ''3.6.3-32'' ''3'' None,
                 ''2.7'' \<mapsto> example_version ''2.7'' ''2'' None,
                 ''3.6'' \<mapsto> example_version ''3.6'' ''3'' None],
      generic_shim = ''MZ'',
      set_order = first_code\<rparr>"

text \<open>A stand-in for \<open>hashlib.md5(data).hexdigest()\<close>, told apart on the empty payload.\<close>

definition example_md5 :: "string \<Rightarrow> string" where
  "example_md5 data = (if data = [] then ''d41d8cd9'' else ''00000000'')"

definition example_state :: "directory \<Rightarrow> string option \<Rightarrow> state" where
  "example_state d names = \<lparr>files = d, python_versions = names, console = []\<rparr>"

section \<open>Activation refused for an empty list\<close>

text \<open>
  C6. \<open>activate\<close> with an empty version list and \<open>allow_empty\<close> false fails (it exits
  with status 1), and the failure modifies no state: the shared scripts directory and
  the persisted list of active versions are as they were before the call. Only the
  message on the console is new.
\<close>

theorem activate_empty_fails_unchanged:
  "fst (activate h [] False quiet s) = Inl (Exit 1)
   \<and> files (snd (activate h [] False quiet s)) = files s
   \<and> python_versions (snd (activate h [] False quiet s)) = python_versions s"
  by (simp add: activate_def echo_def)

section \<open>Removing versions that are not active\<close>

lemma set_set_iter: "set (set_iter k xs) = set xs"
  by (simp add: set_iter_def)

lemma remove_each_absent:
  "\<forall>v \<in> set vs. name v \<notin> set active \<Longrightarrow> remove_each vs active s = (active, s)"
  by (induction vs arbitrary: active s) auto

text \<open>
  C7. When none of the versions to remove is a member of the persisted list of active
  versions, \<open>update_active_versions\<close> returns with the state exactly as it was: nothing
  is written to the shared scripts directory, the persisted list is unchanged, and
  \<open>activate\<close> is not run.
\<close>

theorem update_active_versions_absent_noop:
  "\<forall>v \<in> set remove. name v \<notin> set (get_active_names s)
   \<Longrightarrow> update_active_versions h remove s = (Inr (), s)"
  by (simp add: update_active_versions_def remove_each_absent set_set_iter)

theorem update_active_versions_absent_noop_witness:
  "''3.5'' \<notin> set (get_active_names (example_state [] (Some ''3.6\<newline>2.7'')))
   \<and> update_active_versions example_host [example_version ''3.5'' ''3'' None]
        (example_state [] (Some ''3.6\<newline>2.7''))
      = (Inr (), example_state [] (Some ''3.6\<newline>2.7''))"
proof -
  have n: "get_active_names (example_state [] (Some ''3.6\<newline>2.7'')) = [''3.6'', ''2.7'']"
    by code_simp
  have "\<forall>v \<in> set [example_version ''3.5'' ''3'' None].
           name v \<notin> set (get_active_names (example_state [] (Some ''3.6\<newline>2.7'')))"
    by (simp add: n example_version_def)
  from update_active_versions_absent_noop [OF this, of example_host]
  show ?thesis by (simp add: n)
qed

section \<open>Facts about directories\<close>

lemma clean_lookup: "clean d \<Longrightarrow> map_of d p = Some nd \<Longrightarrow> \<exists>c. nd = File c False"
  by (induction d) (auto simp: clean_def split: node.splits if_splits)

lemma clean_update: "clean d \<Longrightarrow> clean (AList.update p (File c False) d)"
  by (induction d) (auto simp: clean_def)

lemma write_text_clean: "clean d \<Longrightarrow> write_text d p c = Inr (AList.update p (File c False) d)"
  by (auto simp: write_text_def split: option.splits node.splits dest: clean_lookup)

lemma copy2_clean: "clean d \<Longrightarrow> copy2 c d p = Inr (AList.update p (File c False) d)"
  by (auto simp: copy2_def split: option.splits node.splits dest: clean_lookup)

lemma wf_update: "wf d \<Longrightarrow> wf (AList.update p (File c False) d)"
  by (simp add: wf_def clean_update distinct_update)

lemma wf_Nil: "wf []"
  by (simp add: wf_def clean_def)

lemma files_echo: "files (echo m s) = files s"
  by (simp add: echo_def)

lemma python_versions_echo: "python_versions (echo m s) = python_versions s"
  by (simp add: echo_def)

lemma removable_delete: "removable (AList.delete p d) q = (q \<noteq> p \<and> removable d q)"
  by (auto simp: removable_def delete_conv')

lemma exists_delete: "exists (AList.delete p d) q = (q \<noteq> p \<and> exists d q)"
  by (auto simp: exists_def delete_conv')



lemma unlink_all_keys:
  "unlink_all ps d = (Inr (), d') \<Longrightarrow> fst ` set d' \<subseteq> fst ` set d - set ps"
proof (induction ps arbitrary: d)
  case Nil
  then show ?case by auto
next
  case (Cons p ps)
  from Cons.prems obtain d1 where u: "unlink d p = Inr d1" and r: "unlink_all ps d1 = (Inr (), d')"
    by (auto split: sum.splits)
  from u have d1: "d1 = AList.delete p d"
    by (auto simp: unlink_def split: option.splits node.splits if_splits)
  from Cons.IH [OF r] have "fst ` set d' \<subseteq> fst ` set d1 - set ps" .
  also have "fst ` set d1 \<subseteq> fst ` set d - {p}"
    unfolding d1 using delete_notin_dom [of p d] dom_delete_subset [of p d] by auto
  finally show ?case by auto
qed

lemma teardown_empty: "unlink_all (iterdir d) d = (Inr (), d') \<Longrightarrow> d' = []"
  using unlink_all_keys [of "map fst d" d d'] by (auto simp: iterdir_def)

section \<open>Sidecar names\<close>

lemma rfind_absent: "c \<notin> set ys \<Longrightarrow> rfind c ys = - 1"
  by (induction ys) auto

lemma rfind_last: "c \<notin> set ys \<Longrightarrow> rfind c (xs @ c # ys) = int (length xs)"
  by (induction xs) (auto simp: rfind_absent)

lemma suffix_of_ext:
  assumes "pre \<noteq> []" "ext \<noteq> []" "CHR ''.'' \<notin> set ext"
  shows "suffix_of (pre @ CHR ''.'' # ext) = CHR ''.'' # ext"
proof -
  have r: "rfind (CHR ''.'') (pre @ CHR ''.'' # ext) = int (length pre)"
    using assms(3) by (rule rfind_last)
  have "0 < length pre" "0 < length ext" using assms(1,2) by simp_all
  then show ?thesis unfolding suffix_of_def r by (simp add: Let_def)
qed

lemma with_suffix_ext:
  assumes "pre \<noteq> []" "ext \<noteq> []" "CHR ''.'' \<notin> set ext"
  shows "with_suffix (pre @ CHR ''.'' # ext) new = pre @ new"
  unfolding with_suffix_def suffix_of_ext [OF assms] by (simp add: Let_def)

lemma sidecar_python: "with_suffix (''python'' @ mv @ ''.exe'') ''.shim'' = ''python'' @ mv @ ''.shim''"
proof -
  have "with_suffix ((''python'' @ mv) @ CHR ''.'' # ''exe'') ''.shim'' = (''python'' @ mv) @ ''.shim''"
    by (rule with_suffix_ext) simp_all
  then show ?thesis by simp
qed

lemma sidecar_inj:
  "with_suffix (python_command u) ''.shim'' = with_suffix (python_command v) ''.shim''
   \<Longrightarrow> python_command u = python_command v"
  unfolding python_command_def sidecar_python by simp

lemma exe_not_shim: "mv @ ''.exe'' \<noteq> mu @ ''.shim''"
proof
  assume "mv @ ''.exe'' = mu @ ''.shim''"
  then have "last (mv @ ''.exe'') = last (mu @ ''.shim'')" by simp
  then show False by simp
qed

lemma sidecar_not_command: "with_suffix (python_command u) ''.shim'' \<noteq> python_command v"
  unfolding python_command_def sidecar_python
  using exe_not_shim [of "major_version v" "major_version u"] by simp

lemma sidecar_not_self: "with_suffix (python_command v) ''.shim'' \<noteq> python_command v"
  by (rule sidecar_not_command)

section \<open>Publishing into a directory of free files\<close>

lemma publish_shim_clean:
  assumes "wf (files s)"
  shows "fst (publish_shim h t c False q s) = Inr ()"
    and "wf (files (snd (publish_shim h t c False q s)))"
    and "map_of (files (snd (publish_shim h t c False q s))) =
           (if exists (files s) t then map_of (files s)
            else (map_of (files s))(with_suffix t ''.shim'' \<mapsto> File c False,
                                    t \<mapsto> File (generic_shim h) False))"
proof -
  from assms have cl: "clean (files s)" by (simp add: wf_def)
  let ?d1 = "AList.update (with_suffix t ''.shim'') (File c False) (files s)"
  have w: "write_text (files s) (with_suffix t ''.shim'') c = Inr ?d1"
    using cl by (rule write_text_clean)
  have "wf ?d1" using assms by (rule wf_update)
  then have "clean ?d1" by (simp add: wf_def)
  then have cp: "copy2 (generic_shim h) ?d1 t = Inr (AList.update t (File (generic_shim h) False) ?d1)"
    by (rule copy2_clean)
  show "fst (publish_shim h t c False q s) = Inr ()"
    by (simp add: publish_shim_def files_echo w cp)
  show "wf (files (snd (publish_shim h t c False q s)))"
    using assms by (simp add: publish_shim_def files_echo w cp wf_update)
  show "map_of (files (snd (publish_shim h t c False q s))) =
           (if exists (files s) t then map_of (files s)
            else (map_of (files s))(with_suffix t ''.shim'' \<mapsto> File c False,
                                    t \<mapsto> File (generic_shim h) False))"
    by (simp add: publish_shim_def files_echo w cp update_conv')
qed

lemma publish_file_clean:
  assumes "wf (files s)"
  shows "fst (publish_file c p False q s) = Inr ()"
    and "wf (files (snd (publish_file c p False q s)))"
    and "map_of (files (snd (publish_file c p False q s))) =
           (if exists (files s) p then map_of (files s)
            else (map_of (files s))(p \<mapsto> File c False))"
proof -
  from assms have cl: "clean (files s)" by (simp add: wf_def)
  have cp: "copy2 c (files s) p = Inr (AList.update p (File c False) (files s))"
    using cl by (rule copy2_clean)
  show "fst (publish_file c p False q s) = Inr ()"
    by (simp add: publish_file_def files_echo cp)
  show "wf (files (snd (publish_file c p False q s)))"
    using assms by (simp add: publish_file_def files_echo cp wf_update)
  show "map_of (files (snd (publish_file c p False q s))) =
           (if exists (files s) p then map_of (files s)
            else (map_of (files s))(p \<mapsto> File c False))"
    by (simp add: publish_file_def files_echo cp update_conv')
qed

lemma publish_scripts_clean:
  "wf (files s) \<Longrightarrow>
   fst (publish_scripts es q False s) = Inr ()
   \<and> wf (files (snd (publish_scripts es q False s)))
   \<and> (\<forall>p. map_of (files (snd (publish_scripts es q False s))) p =
          (case map_of (files s) p of
             Some nd \<Rightarrow> Some nd
           | None \<Rightarrow> map_of (script_offers es) p))"
proof (induction es arbitrary: s)
  case Nil
  then show ?case by (simp split: option.splits)
next
  case (Cons e es)
  obtain n nd where e: "e = (n, nd)" by (cases e)
  show ?case
  proof (cases "stem n \<in> {''easy_install'', ''pip''} \<or> nd = Dir")
    case True
    have so: "script_offers (e # es) = script_offers es"
      using True e by (cases nd) auto
    have step: "publish_scripts (e # es) q False s = publish_scripts es q False s"
      using True e by (cases nd) auto
    from Cons.IH [OF Cons.prems] show ?thesis
      unfolding step so by simp
  next
    case False
    then obtain c u where nd: "nd = File c u" by (cases nd) auto
    let ?s1 = "snd (publish_file c n False q s)"
    note pf = publish_file_clean [OF Cons.prems, of c n q]
    have step: "publish_scripts (e # es) q False s = publish_scripts es q False ?s1"
      using e nd False pf(1) by (cases "publish_file c n False q s") auto
    have so: "script_offers (e # es) = (n, File c False) # script_offers es"
      using e nd False by simp
    from Cons.IH [OF pf(2)] show ?thesis
      unfolding step so
      by (auto simp: pf(3) exists_def split: option.splits)
  qed
qed

lemma offered_command: "offered h v (python_command v) = Some (File (generic_shim h) False)"
  by (simp add: offered_def)

lemma publish_version_scripts_clean:
  assumes "wf (files s)"
  shows "fst (publish_version_scripts h v q False s) = Inr ()
    \<and> wf (files (snd (publish_version_scripts h v q False s)))
    \<and> (\<forall>p. map_of (files (snd (publish_version_scripts h v q False s))) p =
           (if p = with_suffix (python_command v) ''.shim'' \<and> \<not> exists (files s) (python_command v)
            then Some (File (python (get_installation v)) False)
            else case map_of (files s) p of
                   Some nd \<Rightarrow> Some nd
                 | None \<Rightarrow> offered h v p))"
proof -
  let ?s1 = "if \<not> q then echo (Publishing_version (name v)) s else s"
  let ?t = "python_command v"
  let ?c = "python (get_installation v)"
  let ?s2 = "snd (publish_shim h ?t ?c False q ?s1)"
  have f1: "files ?s1 = files s" by (simp add: files_echo)
  with assms have wf1: "wf (files ?s1)" by simp
  note ps = publish_shim_clean [OF wf1, of h ?t ?c q]
  have m2: "map_of (files ?s2) =
           (if exists (files s) ?t then map_of (files s)
            else (map_of (files s))(with_suffix ?t ''.shim'' \<mapsto> File ?c False,
                                    ?t \<mapsto> File (generic_shim h) False))"
    using ps(3) unfolding f1 .
  show ?thesis
  proof (cases "scripts_dir (get_installation v)")
    case None
    have step: "publish_version_scripts h v q False s = (Inr (), ?s2)"
      using ps(1) None
      by (cases "publish_shim h ?t ?c False q ?s1")
         (simp add: publish_version_scripts_def publish_python_command_def python_command_def)
    have "\<forall>p. map_of (files ?s2) p =
           (if p = with_suffix ?t ''.shim'' \<and> \<not> exists (files s) ?t
            then Some (File ?c False)
            else case map_of (files s) p of
                   Some nd \<Rightarrow> Some nd
                 | None \<Rightarrow> offered h v p)"
      unfolding m2
      using None sidecar_not_self [of v]
      by (auto simp: offered_def exists_def split: option.splits)
    with ps(2) show ?thesis unfolding step by simp
  next
    case (Some es)
    have step: "publish_version_scripts h v q False s = publish_scripts es q False ?s2"
      using ps(1) Some
      by (cases "publish_shim h ?t ?c False q ?s1")
         (simp add: publish_version_scripts_def publish_python_command_def python_command_def)
    note sc = publish_scripts_clean [OF ps(2), of es q]
    have "\<forall>p. (case map_of (files ?s2) p of
             Some nd \<Rightarrow> Some nd
           | None \<Rightarrow> map_of (script_offers es) p) =
           (if p = with_suffix ?t ''.shim'' \<and> \<not> exists (files s) ?t
            then Some (File ?c False)
            else case map_of (files s) p of
                   Some nd \<Rightarrow> Some nd
                 | None \<Rightarrow> offered h v p)"
      unfolding m2
      using Some sidecar_not_self [of v]
      by (auto simp: offered_def exists_def split: option.splits)
    with sc show ?thesis unfolding step by simp
  qed
qed

lemma publish_all_clean:
  "wf (files s) \<Longrightarrow>
   fst (publish_all h vs q s) = Inr ()
   \<and> wf (files (snd (publish_all h vs q s)))
   \<and> (\<forall>p. (\<forall>v \<in> set vs. with_suffix (python_command v) ''.shim'' \<noteq> p) \<longrightarrow>
          map_of (files (snd (publish_all h vs q s))) p =
            (case map_of (files s) p of
               Some nd \<Rightarrow> Some nd
             | None \<Rightarrow> (case owner h vs p of None \<Rightarrow> None | Some v \<Rightarrow> offered h v p)))"
proof (induction vs arbitrary: s)
  case Nil
  then show ?case by (simp split: option.splits)
next
  case (Cons v vs)
  let ?s1 = "snd (publish_version_scripts h v q False s)"
  note pv = publish_version_scripts_clean [OF Cons.prems, of h v q]
  have step: "publish_all h (v # vs) q s = publish_all h vs q ?s1"
    using pv by (cases "publish_version_scripts h v q False s") auto
  from pv have wf1: "wf (files ?s1)" by blast
  note ih = Cons.IH [OF wf1]
  show ?case
  proof (intro conjI allI impI)
    show "fst (publish_all h (v # vs) q s) = Inr ()" using ih step by simp
    show "wf (files (snd (publish_all h (v # vs) q s)))" using ih step by simp
  next
    fix p
    assume ns: "\<forall>u \<in> set (v # vs). with_suffix (python_command u) ''.shim'' \<noteq> p"
    then have "\<forall>u \<in> set vs. with_suffix (python_command u) ''.shim'' \<noteq> p" by simp
    with ih have a: "map_of (files (snd (publish_all h vs q ?s1))) p =
            (case map_of (files ?s1) p of
               Some nd \<Rightarrow> Some nd
             | None \<Rightarrow> (case owner h vs p of None \<Rightarrow> None | Some v \<Rightarrow> offered h v p))"
      by blast
    from ns have "p \<noteq> with_suffix (python_command v) ''.shim''" by auto
    with pv have b: "map_of (files ?s1) p =
         (case map_of (files s) p of Some nd \<Rightarrow> Some nd | None \<Rightarrow> offered h v p)"
      by auto
    show "map_of (files (snd (publish_all h (v # vs) q s))) p =
            (case map_of (files s) p of
               Some nd \<Rightarrow> Some nd
             | None \<Rightarrow> (case owner h (v # vs) p of None \<Rightarrow> None | Some v \<Rightarrow> offered h v p))"
      unfolding step a b by (auto split: option.splits)
  qed
qed

lemma publish_all_first_offer:
  "wf (files s) \<Longrightarrow>
   \<forall>v \<in> set vs. \<not> exists (files s) (python_command v) \<and> owner h vs (python_command v) = Some v
        \<longrightarrow> with_suffix (python_command v) ''.shim'' \<noteq> p \<Longrightarrow>
   map_of (files (snd (publish_all h vs q s))) p =
     (case map_of (files s) p of
        Some nd \<Rightarrow> Some nd
      | None \<Rightarrow> (case owner h vs p of None \<Rightarrow> None | Some v \<Rightarrow> offered h v p))"
proof (induction vs arbitrary: s)
  case Nil
  then show ?case by (simp split: option.splits)
next
  case (Cons u vs)
  let ?s1 = "snd (publish_version_scripts h u q False s)"
  note pv = publish_version_scripts_clean [OF Cons.prems(1), of h u q]
  have step: "publish_all h (u # vs) q s = publish_all h vs q ?s1"
    using pv by (cases "publish_version_scripts h u q False s") auto
  from pv have wf1: "wf (files ?s1)" by blast
  from pv have look: "map_of (files ?s1) x =
           (if x = with_suffix (python_command u) ''.shim'' \<and> \<not> exists (files s) (python_command u)
            then Some (File (python (get_installation u)) False)
            else case map_of (files s) x of
                   Some nd \<Rightarrow> Some nd
                 | None \<Rightarrow> offered h u x)" for x
    by blast
  have rest: "\<forall>v \<in> set vs. \<not> exists (files ?s1) (python_command v)
                  \<and> owner h vs (python_command v) = Some v
        \<longrightarrow> with_suffix (python_command v) ''.shim'' \<noteq> p"
  proof (intro ballI impI)
    fix v
    assume v: "v \<in> set vs"
      and free: "\<not> exists (files ?s1) (python_command v) \<and> owner h vs (python_command v) = Some v"
    have ne: "python_command v \<noteq> with_suffix (python_command u) ''.shim''"
      using sidecar_not_command [of u v] by simp
    from free have "map_of (files ?s1) (python_command v) = None" by (simp add: exists_def)
    with ne have n: "map_of (files s) (python_command v) = None" "offered h u (python_command v) = None"
      unfolding look by (auto split: option.splits)
    with free have "\<not> exists (files s) (python_command v)
        \<and> owner h (u # vs) (python_command v) = Some v"
      by (simp add: exists_def)
    with Cons.prems(2) v show "with_suffix (python_command v) ''.shim'' \<noteq> p" by simp
  qed
  have a: "map_of (files (snd (publish_all h vs q ?s1))) p =
            (case map_of (files ?s1) p of
               Some nd \<Rightarrow> Some nd
             | None \<Rightarrow> (case owner h vs p of None \<Rightarrow> None | Some v \<Rightarrow> offered h v p))"
    using wf1 rest by (rule Cons.IH)
  have "\<not> (p = with_suffix (python_command u) ''.shim'' \<and> \<not> exists (files s) (python_command u))"
  proof
    assume c: "p = with_suffix (python_command u) ''.shim'' \<and> \<not> exists (files s) (python_command u)"
    have "owner h (u # vs) (python_command u) = Some u" by (simp add: offered_command)
    with c Cons.prems(2) show False by simp
  qed
  then have b: "map_of (files ?s1) p =
         (case map_of (files s) p of Some nd \<Rightarrow> Some nd | None \<Rightarrow> offered h u p)"
    unfolding look by auto
  show ?case unfolding step a b by (auto split: option.splits)
qed

lemma publish_all_keeps_sidecar:
  "wf (files s) \<Longrightarrow> exists (files s) (python_command v) \<Longrightarrow>
   map_of (files s) (with_suffix (python_command v) ''.shim'') = Some x \<Longrightarrow>
   map_of (files (snd (publish_all h vs q s))) (with_suffix (python_command v) ''.shim'') = Some x"
proof (induction vs arbitrary: s)
  case Nil
  then show ?case by simp
next
  case (Cons u vs)
  let ?s1 = "snd (publish_version_scripts h u q False s)"
  let ?sc = "with_suffix (python_command v) ''.shim''"
  note pv = publish_version_scripts_clean [OF Cons.prems(1), of h u q]
  have step: "publish_all h (u # vs) q s = publish_all h vs q ?s1"
    using pv by (cases "publish_version_scripts h u q False s") auto
  from pv have wf1: "wf (files ?s1)" by blast
  have "\<not> (?sc = with_suffix (python_command u) ''.shim'' \<and> \<not> exists (files s) (python_command u))"
    using Cons.prems(2) sidecar_inj [of v u] by auto
  with pv Cons.prems(3) have sc1: "map_of (files ?s1) ?sc = Some x" by auto
  have "python_command v \<noteq> with_suffix (python_command u) ''.shim''"
    using sidecar_not_command [of u v] by simp
  with pv Cons.prems(2) have ex1: "exists (files ?s1) (python_command v)"
    by (auto simp: exists_def)
  from Cons.IH [OF wf1 ex1 sc1] show ?case unfolding step .
qed

lemma publish_all_sidecar:
  "wf (files s) \<Longrightarrow> \<not> exists (files s) (python_command v) \<Longrightarrow>
   owner h vs (python_command v) = Some v \<Longrightarrow>
   map_of (files (snd (publish_all h vs q s))) (with_suffix (python_command v) ''.shim'')
     = Some (File (python (get_installation v)) False)"
proof (induction vs arbitrary: s)
  case Nil
  then show ?case by simp
next
  case (Cons u vs)
  let ?s1 = "snd (publish_version_scripts h u q False s)"
  let ?t = "python_command v"
  let ?sc = "with_suffix (python_command v) ''.shim''"
  note pv = publish_version_scripts_clean [OF Cons.prems(1), of h u q]
  have step: "publish_all h (u # vs) q s = publish_all h vs q ?s1"
    using pv by (cases "publish_version_scripts h u q False s") auto
  from pv have wf1: "wf (files ?s1)" by blast
  have tsc: "?t \<noteq> with_suffix (python_command u) ''.shim''"
    using sidecar_not_command [of u v] by simp
  show ?case
  proof (cases "offered h u ?t = None")
    case True
    with Cons.prems(3) have ow: "owner h vs ?t = Some v" by simp
    from pv tsc Cons.prems(2) True have "\<not> exists (files ?s1) ?t"
      by (auto simp: exists_def)
    from Cons.IH [OF wf1 this ow] show ?thesis unfolding step .
  next
    case False
    with Cons.prems(3) have uv: "u = v" by simp
    from pv Cons.prems(2) uv
    have sc1: "map_of (files ?s1) ?sc = Some (File (python (get_installation v)) False)"
      by auto
    from pv tsc Cons.prems(2) uv have ex1: "exists (files ?s1) ?t"
      by (auto simp: exists_def offered_command)
    from publish_all_keeps_sidecar [OF wf1 ex1 sc1] show ?thesis unfolding step .
  qed
qed

section \<open>The state beyond the files\<close>

lemma publish_shim_files:
  "files s = files s' \<Longrightarrow>
   fst (publish_shim h t c ow q s) = fst (publish_shim h t c ow q' s')
   \<and> files (snd (publish_shim h t c ow q s)) = files (snd (publish_shim h t c ow q' s'))"
  by (auto simp: publish_shim_def echo_def Let_def split: sum.splits)

lemma publish_shim_versions:
  "python_versions (snd (publish_shim h t c ow q s)) = python_versions s"
  by (auto simp: publish_shim_def echo_def Let_def split: sum.splits)

lemma publish_file_files:
  "files s = files s' \<Longrightarrow>
   fst (publish_file c t ow q s) = fst (publish_file c t ow q' s')
   \<and> files (snd (publish_file c t ow q s)) = files (snd (publish_file c t ow q' s'))"
  by (auto simp: publish_file_def echo_def Let_def split: sum.splits)

lemma publish_file_versions:
  "python_versions (snd (publish_file c t ow q s)) = python_versions s"
  by (auto simp: publish_file_def echo_def Let_def split: sum.splits)

lemma publish_scripts_files:
  "files s = files s' \<Longrightarrow>
   fst (publish_scripts es q ow s) = fst (publish_scripts es q' ow s')
   \<and> files (snd (publish_scripts es q ow s)) = files (snd (publish_scripts es q' ow s'))"
proof (induction es arbitrary: s s')
  case Nil
  then show ?case by simp
next
  case (Cons e es)
  obtain p nd where e: "e = (p, nd)" by (cases e)
  show ?case
  proof (cases nd)
    case Dir
    with e Cons show ?thesis by simp
  next
    case (File c u)
    obtain r1 s1 where r1: "publish_file c p ow q s = (r1, s1)" by (cases "publish_file c p ow q s")
    obtain r2 s2 where r2: "publish_file c p ow q' s' = (r2, s2)" by (cases "publish_file c p ow q' s'")
    from publish_file_files [OF Cons.prems, of c p ow q q'] r1 r2
    have eq: "r1 = r2" "files s1 = files s2" by simp_all
    show ?thesis
      using e File r1 r2 eq Cons.IH [of s1 s2] Cons.IH [OF Cons.prems]
      by (auto split: sum.splits)
  qed
qed

lemma publish_scripts_versions:
  "python_versions (snd (publish_scripts es q ow s)) = python_versions s"
proof (induction es arbitrary: s)
  case Nil
  then show ?case by simp
next
  case (Cons e es)
  obtain p nd where e: "e = (p, nd)" by (cases e)
  show ?case
  proof (cases nd)
    case Dir
    with e Cons show ?thesis by simp
  next
    case (File c u)
    obtain r1 s1 where r1: "publish_file c p ow q s = (r1, s1)" by (cases "publish_file c p ow q s")
    with publish_file_versions [of c p ow q s] have "python_versions s1 = python_versions s" by simp
    with e File r1 Cons.IH [of s1] Cons.IH [of s] show ?thesis
      by (auto split: sum.splits)
  qed
qed

lemma publish_version_scripts_files:
  assumes "files s = files s'"
  shows "fst (publish_version_scripts h v q ow s) = fst (publish_version_scripts h v q' ow s')
   \<and> files (snd (publish_version_scripts h v q ow s))
       = files (snd (publish_version_scripts h v q' ow s'))"
proof -
  let ?s1 = "if \<not> q then echo (Publishing_version (name v)) s else s"
  let ?s1' = "if \<not> q' then echo (Publishing_version (name v)) s' else s'"
  let ?t = "''python'' @ major_version v @ ''.exe''"
  let ?c = "python (get_installation v)"
  have f1: "files ?s1 = files ?s1'"
    using assms by (simp add: files_echo)
  obtain r1 s2 where r1: "publish_shim h ?t ?c ow q ?s1 = (r1, s2)"
    by (cases "publish_shim h ?t ?c ow q ?s1")
  obtain r2 s2' where r2: "publish_shim h ?t ?c ow q' ?s1' = (r2, s2')"
    by (cases "publish_shim h ?t ?c ow q' ?s1'")
  from publish_shim_files [OF f1, of h ?t ?c ow q q'] r1 r2
  have eq: "r1 = r2" "files s2 = files s2'" by simp_all
  show ?thesis
    using r1 r2 eq publish_scripts_files [OF eq(2)]
    by (auto simp: publish_version_scripts_def publish_python_command_def Let_def
             split: sum.splits option.splits)
qed

lemma publish_version_scripts_versions:
  "python_versions (snd (publish_version_scripts h v q ow s)) = python_versions s"
proof -
  let ?s1 = "if \<not> q then echo (Publishing_version (name v)) s else s"
  let ?t = "''python'' @ major_version v @ ''.exe''"
  let ?c = "python (get_installation v)"
  obtain r1 s2 where r1: "publish_shim h ?t ?c ow q ?s1 = (r1, s2)"
    by (cases "publish_shim h ?t ?c ow q ?s1")
  with publish_shim_versions [of h ?t ?c ow q ?s1]
  have "python_versions s2 = python_versions s" by (simp add: python_versions_echo)
  then show ?thesis
    using r1 publish_scripts_versions [of _ q ow s2]
    by (auto simp: publish_version_scripts_def publish_python_command_def Let_def
             split: sum.splits option.splits)
qed

lemma publish_all_files:
  "files s = files s' \<Longrightarrow>
   fst (publish_all h vs q s) = fst (publish_all h vs q' s')
   \<and> files (snd (publish_all h vs q s)) = files (snd (publish_all h vs q' s'))"
proof (induction vs arbitrary: s s')
  case Nil
  then show ?case by simp
next
  case (Cons v vs)
  obtain r1 s1 where r1: "publish_version_scripts h v q False s = (r1, s1)"
    by (cases "publish_version_scripts h v q False s")
  obtain r2 s2 where r2: "publish_version_scripts h v q' False s' = (r2, s2)"
    by (cases "publish_version_scripts h v q' False s'")
  from publish_version_scripts_files [OF Cons.prems, of h v q False q'] r1 r2
  have eq: "r1 = r2" "files s1 = files s2" by simp_all
  show ?case
    using r1 r2 eq Cons.IH [OF eq(2)]
    by (auto split: sum.splits)
qed

lemma publish_all_versions:
  "python_versions (snd (publish_all h vs q s)) = python_versions s"
proof (induction vs arbitrary: s)
  case Nil
  then show ?case by simp
next
  case (Cons v vs)
  obtain r1 s1 where r1: "publish_version_scripts h v q False s = (r1, s1)"
    by (cases "publish_version_scripts h v q False s")
  with publish_version_scripts_versions [of h v q False s]
  have "python_versions s1 = python_versions s" by simp
  with r1 Cons.IH [of s1] show ?case by (auto split: sum.splits)
qed

text \<open>What \<open>activate\<close> returns, by the outcome of its steps.\<close>

lemma activate_refused:
  "\<not> allow \<and> vs = [] \<Longrightarrow> activate h vs allow q s = (Inl (Exit 1), echo No_active_versions s)"
  by (simp add: activate_def)

lemma activate_teardown_failed:
  assumes "\<not> (\<not> allow \<and> vs = [])"
    and "unlink_all (iterdir (files s)) (files s) = (Inl e, d)"
  shows "activate h vs allow q s =
           (Inl e, (if \<not> q then echo Removing_scripts s else s)\<lparr>files := d\<rparr>)"
  using assms by (auto simp: activate_def files_echo)

lemma activate_published:
  assumes "\<not> (\<not> allow \<and> vs = [])"
    and "unlink_all (iterdir (files s)) (files s) = (Inr (), d)"
  shows "activate h vs allow q s =
     (case publish_all h vs q ((if \<not> q then echo Removing_scripts s else s)\<lparr>files := d\<rparr>) of
        (Inl e, s2) \<Rightarrow> (Inl e, s2)
      | (Inr _, s2) \<Rightarrow> (Inr (), s2\<lparr>python_versions := Some (join ''\<newline>'' (map name vs))\<rparr>))"
  using assms by (auto simp: activate_def files_echo)

section \<open>Collision precedence\<close>

text \<open>
  C1, as the code has it. After a completed \<open>activate\<close> of an ordered version list, every
  name of the shared scripts directory holds exactly what its owner, the first version
  of the list that offers it, offers under it: a copy of the dispatcher for that
  version's interpreter command, a copy of its script otherwise; later offers of the
  name are skipped, and a name that no version offers is absent. The one exception is
  the sidecar name \<open>python<major>.shim\<close> of an interpreter command that is owned by its
  own version, and so is published as a shim: that name holds the version's interpreter
  path, whatever script is offered under it, since \<open>publish_shim\<close> writes the sidecar
  whenever the command name is free. Every name falls under one of the two.
\<close>

theorem activate_first_offer_owns:
  assumes "fst (activate h vs allow_empty quiet s) = Inr ()"
  shows "(\<forall>p. (\<forall>v \<in> set vs. owner h vs (python_command v) = Some v
                   \<longrightarrow> with_suffix (python_command v) ''.shim'' \<noteq> p) \<longrightarrow>
            map_of (files (snd (activate h vs allow_empty quiet s))) p =
              (case owner h vs p of None \<Rightarrow> None | Some v \<Rightarrow> offered h v p))
       \<and> (\<forall>v. owner h vs (python_command v) = Some v \<longrightarrow>
            map_of (files (snd (activate h vs allow_empty quiet s)))
                   (with_suffix (python_command v) ''.shim'')
              = Some (File (python (get_installation v)) False))"
proof -
  let ?s1 = "if \<not> quiet then echo Removing_scripts s else s"
  from assms have ne: "\<not> (\<not> allow_empty \<and> vs = [])"
    by (auto simp: activate_def)
  obtain r d where u: "unlink_all (iterdir (files ?s1)) (files ?s1) = (r, d)"
    by (cases "unlink_all (iterdir (files ?s1)) (files ?s1)")
  from assms ne u have r: "r = Inr ()"
    by (cases r) (auto simp: activate_def)
  with u have d: "d = []" by (auto dest: teardown_empty)
  let ?s2 = "?s1\<lparr>files := []\<rparr>"
  have wf2: "wf (files ?s2)" by (simp add: wf_Nil)
  note pa = publish_all_clean [OF wf2, of h vs quiet]
  let ?s3 = "snd (publish_all h vs quiet ?s2)"
  have act: "activate h vs allow_empty quiet s =
      (Inr (), ?s3\<lparr>python_versions := Some (join ''\<newline>'' (map name vs))\<rparr>)"
    using ne u r d pa
    by (cases "publish_all h vs quiet ?s2") (auto simp: activate_def)
  have ne2: "\<not> exists (files ?s2) p" for p by (simp add: exists_def)
  show ?thesis
  proof (intro conjI allI impI)
    fix p
    assume "\<forall>v \<in> set vs. owner h vs (python_command v) = Some v
                   \<longrightarrow> with_suffix (python_command v) ''.shim'' \<noteq> p"
    then have "\<forall>v \<in> set vs. \<not> exists (files ?s2) (python_command v)
                   \<and> owner h vs (python_command v) = Some v
                   \<longrightarrow> with_suffix (python_command v) ''.shim'' \<noteq> p"
      by blast
    from publish_all_first_offer [OF wf2 this, of quiet]
    show "map_of (files (snd (activate h vs allow_empty quiet s))) p =
              (case owner h vs p of None \<Rightarrow> None | Some v \<Rightarrow> offered h v p)"
      unfolding act by simp
  next
    fix v
    assume "owner h vs (python_command v) = Some v"
    from publish_all_sidecar [OF wf2 ne2 this, of quiet]
    show "map_of (files (snd (activate h vs allow_empty quiet s)))
                   (with_suffix (python_command v) ''.shim'')
              = Some (File (python (get_installation v)) False)"
      unfolding act by simp
  qed
qed

text \<open>
  Two versions that both offer \<open>python3.exe\<close> and \<open>pip3.exe\<close>: both names resolve to the
  first version. And two versions that both offer a script \<open>python3.shim\<close>, where the
  second version's \<open>python3.exe\<close> is skipped for a script of the first: its sidecar is
  not written, and the name holds the first version's script.
\<close>

theorem activate_first_offer_owns_witness:
  "fst (activate example_host
          [example_version ''3.6'' ''3'' (Some [(''pip3.exe'', File ''A-pip3'' False)]),
           example_version ''3.5'' ''3'' (Some [(''pip3.exe'', File ''B-pip3'' False)])]
          False True (example_state [(''old.exe'', File ''old'' False)] None)) = Inr ()
   \<and> offered example_host (example_version ''3.5'' ''3'' (Some [(''pip3.exe'', File ''B-pip3'' False)]))
        ''pip3.exe'' = Some (File ''B-pip3'' False)
   \<and> map_of (files (snd (activate example_host
          [example_version ''3.6'' ''3'' (Some [(''pip3.exe'', File ''A-pip3'' False)]),
           example_version ''3.5'' ''3'' (Some [(''pip3.exe'', File ''B-pip3'' False)])]
          False True (example_state [(''old.exe'', File ''old'' False)] None)))) ''pip3.exe''
       = Some (File ''A-pip3'' False)
   \<and> map_of (files (snd (activate example_host
          [example_version ''3.6'' ''3'' (Some [(''pip3.exe'', File ''A-pip3'' False)]),
           example_version ''3.5'' ''3'' (Some [(''pip3.exe'', File ''B-pip3'' False)])]
          False True (example_state [(''old.exe'', File ''old'' False)] None)))) ''python3.exe''
       = Some (File ''MZ'' False)
   \<and> map_of (files (snd (activate example_host
          [example_version ''3.6'' ''3'' (Some [(''pip3.exe'', File ''A-pip3'' False)]),
           example_version ''3.5'' ''3'' (Some [(''pip3.exe'', File ''B-pip3'' False)])]
          False True (example_state [(''old.exe'', File ''old'' False)] None)))) ''python3.shim''
       = Some (File ''Python3.6/python.exe'' False)
   \<and> fst (activate example_host
          [example_version ''2.7'' ''2'' (Some [(''python3.exe'', File ''A-python3'' False),
                                                (''python3.shim'', File ''A-shim'' False)]),
           example_version ''3.6'' ''3'' (Some [(''python3.shim'', File ''B-shim'' False)])]
          False True (example_state [] None)) = Inr ()
   \<and> offered example_host
        (example_version ''3.6'' ''3'' (Some [(''python3.shim'', File ''B-shim'' False)]))
        ''python3.shim'' = Some (File ''B-shim'' False)
   \<and> map_of (files (snd (activate example_host
          [example_version ''2.7'' ''2'' (Some [(''python3.exe'', File ''A-python3'' False),
                                                (''python3.shim'', File ''A-shim'' False)]),
           example_version ''3.6'' ''3'' (Some [(''python3.shim'', File ''B-shim'' False)])]
          False True (example_state [] None)))) ''python3.shim''
       = Some (File ''A-shim'' False)"
proof -
  let ?A = "example_version ''3.6'' ''3'' (Some [(''pip3.exe'', File ''A-pip3'' False)])"
  let ?B = "example_version ''3.5'' ''3'' (Some [(''pip3.exe'', File ''B-pip3'' False)])"
  let ?s = "example_state [(''old.exe'', File ''old'' False)] None"
  let ?r = "activate example_host [?A, ?B] False True ?s"
  have ok: "fst ?r = Inr ()" by code_simp
  note inst = activate_first_offer_owns [OF ok]
  have sc: "with_suffix (python_command ?A) ''.shim'' = ''python3.shim''"
    "python_command ?A = ''python3.exe''"
    by code_simp+
  have own: "owner example_host [?A, ?B] ''pip3.exe'' = Some ?A"
    "owner example_host [?A, ?B] ''python3.exe'' = Some ?A"
    by code_simp+
  have off: "offered example_host ?A ''pip3.exe'' = Some (File ''A-pip3'' False)"
    "offered example_host ?A ''python3.exe'' = Some (File ''MZ'' False)"
    "offered example_host ?B ''pip3.exe'' = Some (File ''B-pip3'' False)"
    by code_simp+
  have n1: "\<forall>v \<in> set [?A, ?B]. owner example_host [?A, ?B] (python_command v) = Some v
              \<longrightarrow> with_suffix (python_command v) ''.shim'' \<noteq> ''pip3.exe''"
    and n2: "\<forall>v \<in> set [?A, ?B]. owner example_host [?A, ?B] (python_command v) = Some v
              \<longrightarrow> with_suffix (python_command v) ''.shim'' \<noteq> ''python3.exe''"
    by code_simp+
  from inst n1 have a: "map_of (files (snd ?r)) ''pip3.exe''
      = (case owner example_host [?A, ?B] ''pip3.exe'' of None \<Rightarrow> None
         | Some v \<Rightarrow> offered example_host v ''pip3.exe'')" by blast
  from inst n2 have b: "map_of (files (snd ?r)) ''python3.exe''
      = (case owner example_host [?A, ?B] ''python3.exe'' of None \<Rightarrow> None
         | Some v \<Rightarrow> offered example_host v ''python3.exe'')" by blast
  from own(2) have "owner example_host [?A, ?B] (python_command ?A) = Some ?A"
    by (simp add: sc(2))
  with inst have c: "map_of (files (snd ?r)) (with_suffix (python_command ?A) ''.shim'')
      = Some (File (python (get_installation ?A)) False)" by blast
  have py: "python (get_installation ?A) = ''Python3.6/python.exe''"
    by (simp add: example_version_def)
  let ?C = "example_version ''2.7'' ''2'' (Some [(''python3.exe'', File ''A-python3'' False),
                                                (''python3.shim'', File ''A-shim'' False)])"
  let ?D = "example_version ''3.6'' ''3'' (Some [(''python3.shim'', File ''B-shim'' False)])"
  let ?r2 = "activate example_host [?C, ?D] False True (example_state [] None)"
  have ok2: "fst ?r2 = Inr ()" by code_simp
  note inst2 = activate_first_offer_owns [OF ok2]
  have n3: "\<forall>v \<in> set [?C, ?D]. owner example_host [?C, ?D] (python_command v) = Some v
              \<longrightarrow> with_suffix (python_command v) ''.shim'' \<noteq> ''python3.shim''"
    by code_simp
  have own2: "owner example_host [?C, ?D] ''python3.shim'' = Some ?C" by code_simp
  have off2: "offered example_host ?C ''python3.shim'' = Some (File ''A-shim'' False)"
    "offered example_host ?D ''python3.shim'' = Some (File ''B-shim'' False)"
    by code_simp+
  from inst2 n3 have e: "map_of (files (snd ?r2)) ''python3.shim''
      = (case owner example_host [?C, ?D] ''python3.shim'' of None \<Rightarrow> None
         | Some v \<Rightarrow> offered example_host v ''python3.shim'')" by blast
  have sc0: "with_suffix ''python3.exe'' ''.shim'' = ''python3.shim''" by code_simp
  show ?thesis
    using ok off(3) a b c ok2 off2(2) e by (simp add: own own2 off off2 sc sc0 py)
qed

text \<open>
  Two versions that both offer a script named \<open>python2.shim\<close>, the second with major
  version 2: the first version's script is published, and then overwritten by the
  sidecar of the second version's \<open>python2.exe\<close>.
\<close>

theorem sidecar_overwrites_first_offer_counterexample:
  "offered example_host
       (example_version ''3.6'' ''3'' (Some [(''python2.shim'', File ''A-script'' False)]))
       ''python2.shim'' = Some (File ''A-script'' False)
   \<and> offered example_host
       (example_version ''2.7'' ''2'' (Some [(''python2.shim'', File ''B-script'' False)]))
       ''python2.shim'' = Some (File ''B-script'' False)
   \<and> fst (activate example_host
          [example_version ''3.6'' ''3'' (Some [(''python2.shim'', File ''A-script'' False)]),
           example_version ''2.7'' ''2'' (Some [(''python2.shim'', File ''B-script'' False)])]
          False True (example_state [] None)) = Inr ()
   \<and> map_of (files (snd (activate example_host
          [example_version ''3.6'' ''3'' (Some [(''python2.shim'', File ''A-script'' False)]),
           example_version ''2.7'' ''2'' (Some [(''python2.shim'', File ''B-script'' False)])]
          False True (example_state [] None)))) ''python2.shim''
       = Some (File ''Python2.7/python.exe'' False)"
  by code_simp

section \<open>Idempotence of activation\<close>



section \<open>The quiet flag\<close>

text \<open>
  C10. The \<open>quiet\<close> flag is output only: \<open>publish_shim\<close>, \<open>publish_file\<close> and \<open>activate\<close>
  return the same result and leave the same files and the same persisted list of active
  versions with \<open>quiet\<close> true and with \<open>quiet\<close> false; the two runs differ in the console
  alone.
\<close>

theorem quiet_changes_console_only:
  "fst (publish_shim h target text overwrite True s) = fst (publish_shim h target text overwrite False s)
   \<and> files (snd (publish_shim h target text overwrite True s))
       = files (snd (publish_shim h target text overwrite False s))
   \<and> python_versions (snd (publish_shim h target text overwrite True s))
       = python_versions (snd (publish_shim h target text overwrite False s))
   \<and> fst (publish_file source target overwrite True s) = fst (publish_file source target overwrite False s)
   \<and> files (snd (publish_file source target overwrite True s))
       = files (snd (publish_file source target overwrite False s))
   \<and> python_versions (snd (publish_file source target overwrite True s))
       = python_versions (snd (publish_file source target overwrite False s))
   \<and> fst (activate h versions allow_empty True s) = fst (activate h versions allow_empty False s)
   \<and> files (snd (activate h versions allow_empty True s))
       = files (snd (activate h versions allow_empty False s))
   \<and> python_versions (snd (activate h versions allow_empty True s))
       = python_versions (snd (activate h versions allow_empty False s))"
proof -
  have a: "fst (activate h versions allow_empty True s) = fst (activate h versions allow_empty False s)
   \<and> files (snd (activate h versions allow_empty True s))
       = files (snd (activate h versions allow_empty False s))
   \<and> python_versions (snd (activate h versions allow_empty True s))
       = python_versions (snd (activate h versions allow_empty False s))"
  proof (cases "\<not> allow_empty \<and> versions = []")
    case True
    then show ?thesis by (simp add: activate_refused)
  next
    case False
    obtain r d where u: "unlink_all (iterdir (files s)) (files s) = (r, d)"
      by (cases "unlink_all (iterdir (files s)) (files s)")
    show ?thesis
    proof (cases r)
      case (Inl e)
      with u show ?thesis
        using activate_teardown_failed [OF False, of s e d h]
        by (simp add: python_versions_echo)
    next
      case (Inr x)
      let ?sq = "s\<lparr>files := d\<rparr>"
      let ?sl = "(echo Removing_scripts s)\<lparr>files := d\<rparr>"
      have "files ?sq = files ?sl" by simp
      from publish_all_files [OF this, of h versions True False]
      have pf: "fst (publish_all h versions True ?sq) = fst (publish_all h versions False ?sl)"
        "files (snd (publish_all h versions True ?sq)) = files (snd (publish_all h versions False ?sl))"
        by simp_all
      have pv: "python_versions (snd (publish_all h versions True ?sq))
                  = python_versions (snd (publish_all h versions False ?sl))"
        by (simp add: publish_all_versions python_versions_echo)
      from Inr u have u0: "unlink_all (iterdir (files s)) (files s) = (Inr (), d)" by simp
      show ?thesis
        using activate_published [OF False u0, of h True] activate_published [OF False u0, of h False]
              pf pv
        by (cases "publish_all h versions True ?sq"; cases "publish_all h versions False ?sl")
           (auto split: sum.splits)
    qed
  qed
  show ?thesis
    using a publish_shim_files [OF refl, of h target "text" overwrite True s False]
      publish_file_files [OF refl, of source target overwrite True s False]
    by (simp add: publish_shim_versions publish_file_versions)
qed

section \<open>Unlinking pinned commands\<close>

lemma safe_unlink_eq:
  "safe_unlink p s =
     (Inr (), if removable (files s) p then s\<lparr>files := AList.delete p (files s)\<rparr>
              else if exists (files s) p then echo (Failed_to_remove p) s else s)"
  by (auto simp: safe_unlink_def unlink_def removable_def exists_def
           split: option.splits node.splits)

lemma unlink_each_step:
  "unlink_each (p # ps) s =
     unlink_each ps (snd (safe_unlink (with_suffix p ''.shim'')
                            (snd (safe_unlink p (echo (Unlinking p) s)))))"
  by (simp add: safe_unlink_eq)

lemma unlink_each_ok: "fst (unlink_each ps s) = Inr ()"
  by (induction ps arbitrary: s) (simp_all add: safe_unlink_eq)

lemma safe_unlink_absent: "\<not> exists (files s) p \<Longrightarrow> safe_unlink p s = (Inr (), s)"
  by (simp add: safe_unlink_def)

lemma unlink_each_absent:
  "\<forall>p \<in> set ps. \<not> exists (files s) p \<and> \<not> exists (files s) (with_suffix p ''.shim'')
   \<Longrightarrow> files (snd (unlink_each ps s)) = files s"
proof (induction ps arbitrary: s)
  case Nil
  then show ?case by simp
next
  case (Cons p ps)
  let ?s1 = "echo (Unlinking p) s"
  from Cons.prems have a: "\<not> exists (files ?s1) p" "\<not> exists (files ?s1) (with_suffix p ''.shim'')"
    by (simp_all add: files_echo)
  have step: "unlink_each (p # ps) s = unlink_each ps ?s1"
    unfolding unlink_each_step by (simp add: safe_unlink_absent a)
  have "files (snd (unlink_each ps ?s1)) = files ?s1"
    by (rule Cons.IH) (use Cons.prems in \<open>simp add: files_echo\<close>)
  then show ?case unfolding step by (simp add: files_echo)
qed

lemma safe_unlink_exists:
  "exists (files (snd (safe_unlink p s))) q =
     (exists (files s) q \<and> \<not> (q = p \<and> removable (files s) q))"
  by (auto simp: safe_unlink_eq exists_delete files_echo)

lemma safe_unlink_removable:
  "removable (files (snd (safe_unlink p s))) q = (removable (files s) q \<and> q \<noteq> p)"
  by (auto simp: safe_unlink_eq removable_delete files_echo)

lemma safe_unlink_console:
  "set (console s) \<subseteq> set (console (snd (safe_unlink p s)))"
  by (auto simp: safe_unlink_eq echo_def)

lemma safe_unlink_logged:
  "exists (files s) p \<Longrightarrow> \<not> removable (files s) p \<Longrightarrow>
   Failed_to_remove p \<in> set (console (snd (safe_unlink p s)))"
  by (simp add: safe_unlink_eq echo_def)

lemma unlink_each_exists:
  "exists (files (snd (unlink_each ps s))) q =
     (exists (files s) q
      \<and> \<not> (q \<in> set ps \<union> (\<lambda>p. with_suffix p ''.shim'') ` set ps \<and> removable (files s) q))"
proof (induction ps arbitrary: s)
  case Nil
  then show ?case by simp
next
  case (Cons p ps)
  show ?case
    unfolding unlink_each_step Cons.IH safe_unlink_exists safe_unlink_removable
    by (auto simp: files_echo)
qed

lemma unlink_each_console: "set (console s) \<subseteq> set (console (snd (unlink_each ps s)))"
proof (induction ps arbitrary: s)
  case Nil
  then show ?case by simp
next
  case (Cons p ps)
  let ?s1 = "snd (safe_unlink p (echo (Unlinking p) s))"
  let ?s2 = "snd (safe_unlink (with_suffix p ''.shim'') ?s1)"
  have "set (console s) \<subseteq> set (console (echo (Unlinking p) s))" by (auto simp: echo_def)
  also have "\<dots> \<subseteq> set (console ?s1)" by (rule safe_unlink_console)
  also have "\<dots> \<subseteq> set (console ?s2)" by (rule safe_unlink_console)
  also have "\<dots> \<subseteq> set (console (snd (unlink_each ps ?s2)))" by (rule Cons.IH)
  finally show ?case unfolding unlink_each_step .
qed

lemma unlink_each_logged:
  "q \<in> set ps \<union> (\<lambda>p. with_suffix p ''.shim'') ` set ps \<Longrightarrow> exists (files s) q \<Longrightarrow>
   \<not> removable (files s) q \<Longrightarrow> Failed_to_remove q \<in> set (console (snd (unlink_each ps s)))"
proof (induction ps arbitrary: s)
  case Nil
  then show ?case by simp
next
  case (Cons p ps)
  let ?s0 = "echo (Unlinking p) s"
  let ?s1 = "snd (safe_unlink p ?s0)"
  let ?s2 = "snd (safe_unlink (with_suffix p ''.shim'') ?s1)"
  from Cons.prems(2,3) have e0: "exists (files ?s0) q" and n0: "\<not> removable (files ?s0) q"
    by (simp_all add: files_echo)
  then have e1: "exists (files ?s1) q" and n1: "\<not> removable (files ?s1) q"
    by (simp_all add: safe_unlink_exists safe_unlink_removable)
  then have e2: "exists (files ?s2) q" and n2: "\<not> removable (files ?s2) q"
    by (simp_all add: safe_unlink_exists safe_unlink_removable)
  show ?case
  proof (cases "q = p \<or> q = with_suffix p ''.shim''")
    case True
    then have "Failed_to_remove q \<in> set (console ?s2)"
    proof
      assume "q = p"
      with e0 n0 have "Failed_to_remove q \<in> set (console ?s1)"
        by (simp add: safe_unlink_logged)
      with safe_unlink_console [of ?s1 "with_suffix p ''.shim''"] show ?thesis by auto
    next
      assume "q = with_suffix p ''.shim''"
      with e1 n1 show ?thesis by (simp add: safe_unlink_logged)
    qed
    with unlink_each_console [of ?s2 ps] show ?thesis unfolding unlink_each_step by auto
  next
    case False
    with Cons.prems(1) have "q \<in> set ps \<union> (\<lambda>p. with_suffix p ''.shim'') ` set ps" by auto
    from Cons.IH [OF this e2 n2] show ?thesis unfolding unlink_each_step .
  qed
qed

text \<open>
  C9. \<open>unlink_commands\<close> always completes without error. When the declared command
  files and their sidecars are all absent it removes nothing. When the removal of an
  entry fails, the failure is logged, and the other removals still take place: every
  declared command or sidecar that can be removed is gone afterwards.
\<close>

theorem unlink_commands_tolerant:
  "fst (unlink_commands v s) = Inr ()
   \<and> ((\<forall>p \<in> set (python_commands v @ pip_commands v).
          \<not> exists (files s) p \<and> \<not> exists (files s) (with_suffix p ''.shim''))
        \<longrightarrow> files (snd (unlink_commands v s)) = files s)
   \<and> (\<forall>p \<in> set (python_commands v @ pip_commands v). \<forall>q \<in> {p, with_suffix p ''.shim''}.
         (removable (files s) q \<longrightarrow> \<not> exists (files (snd (unlink_commands v s))) q)
         \<and> (exists (files s) q \<and> \<not> removable (files s) q \<longrightarrow>
              Failed_to_remove q \<in> set (console (snd (unlink_commands v s)))))"
proof (intro conjI impI ballI)
  show "fst (unlink_commands v s) = Inr ()"
    by (simp add: unlink_commands_def unlink_each_ok)
next
  assume "\<forall>p \<in> set (python_commands v @ pip_commands v).
          \<not> exists (files s) p \<and> \<not> exists (files s) (with_suffix p ''.shim'')"
  then show "files (snd (unlink_commands v s)) = files s"
    unfolding unlink_commands_def by (rule unlink_each_absent)
next
  fix p q
  assume p: "p \<in> set (python_commands v @ pip_commands v)" and q: "q \<in> {p, with_suffix p ''.shim''}"
  then have m: "q \<in> set (python_commands v @ pip_commands v)
                 \<union> (\<lambda>p. with_suffix p ''.shim'') ` set (python_commands v @ pip_commands v)"
    by blast
  {
    assume "removable (files s) q"
    with m show "\<not> exists (files (snd (unlink_commands v s))) q"
      unfolding unlink_commands_def unlink_each_exists by simp
  }
  {
    assume "exists (files s) q \<and> \<not> removable (files s) q"
    with m show "Failed_to_remove q \<in> set (console (snd (unlink_commands v s)))"
      unfolding unlink_commands_def by (simp add: unlink_each_logged)
  }
qed

theorem unlink_commands_tolerant_witness:
  "unlink_commands (example_version ''3.6'' ''3'' None)
       (example_state [(''python2.7.exe'', File ''MZ'' False)] None)
     = (Inr (), \<lparr>files = [(''python2.7.exe'', File ''MZ'' False)], python_versions = None,
                 console = [Unlinking ''python3.6.exe'', Unlinking ''pip3.6.exe'']\<rparr>)
   \<and> removable [(''python3.6.exe'', File ''MZ'' True), (''pip3.6.exe'', File ''pip'' False)] ''pip3.6.exe''
   \<and> \<not> exists (files (snd (unlink_commands (example_version ''3.6'' ''3'' None)
          (example_state [(''python3.6.exe'', File ''MZ'' True), (''pip3.6.exe'', File ''pip'' False)]
             None)))) ''pip3.6.exe''
   \<and> exists [(''python3.6.exe'', File ''MZ'' True), (''pip3.6.exe'', File ''pip'' False)] ''python3.6.exe''
   \<and> \<not> removable [(''python3.6.exe'', File ''MZ'' True), (''pip3.6.exe'', File ''pip'' False)]
          ''python3.6.exe''
   \<and> Failed_to_remove ''python3.6.exe''
       \<in> set (console (snd (unlink_commands (example_version ''3.6'' ''3'' None)
          (example_state [(''python3.6.exe'', File ''MZ'' True), (''pip3.6.exe'', File ''pip'' False)]
             None))))"
proof -
  let ?v = "example_version ''3.6'' ''3'' None"
  let ?s1 = "example_state [(''python2.7.exe'', File ''MZ'' False)] None"
  let ?d2 = "[(''python3.6.exe'', File ''MZ'' True), (''pip3.6.exe'', File ''pip'' False)]"
  let ?s2 = "example_state ?d2 None"
  have cmds: "python_commands ?v @ pip_commands ?v = [''python3.6.exe'', ''pip3.6.exe'']"
    by (simp add: example_version_def)
  have sc: "with_suffix ''python3.6.exe'' ''.shim'' = ''python3.6.shim''"
    "with_suffix ''pip3.6.exe'' ''.shim'' = ''pip3.6.shim''" by code_simp+
  have absent: "\<forall>p \<in> set (python_commands ?v @ pip_commands ?v).
          \<not> exists (files ?s1) p \<and> \<not> exists (files ?s1) (with_suffix p ''.shim'')"
    unfolding cmds by (simp add: sc exists_def example_state_def)
  with unlink_commands_tolerant [of ?v ?s1]
  have a: "fst (unlink_commands ?v ?s1) = Inr ()" "files (snd (unlink_commands ?v ?s1)) = files ?s1"
    by blast+
  have c1: "console (snd (unlink_commands ?v ?s1)) = [Unlinking ''python3.6.exe'', Unlinking ''pip3.6.exe'']"
    and p1: "python_versions (snd (unlink_commands ?v ?s1)) = None"
    by code_simp+
  have first: "unlink_commands ?v ?s1 = (Inr (), \<lparr>files = [(''python2.7.exe'', File ''MZ'' False)],
        python_versions = None, console = [Unlinking ''python3.6.exe'', Unlinking ''pip3.6.exe'']\<rparr>)"
    using a c1 p1
    by (cases "unlink_commands ?v ?s1"; cases "snd (unlink_commands ?v ?s1)")
       (simp add: example_state_def)
  from unlink_commands_tolerant [of ?v ?s2]
  have b: "\<forall>p \<in> set (python_commands ?v @ pip_commands ?v). \<forall>q \<in> {p, with_suffix p ''.shim''}.
         (removable (files ?s2) q \<longrightarrow> \<not> exists (files (snd (unlink_commands ?v ?s2))) q)
         \<and> (exists (files ?s2) q \<and> \<not> removable (files ?s2) q \<longrightarrow>
              Failed_to_remove q \<in> set (console (snd (unlink_commands ?v ?s2))))"
    by blast
  have f2: "files ?s2 = ?d2" by (simp add: example_state_def)
  have r: "removable ?d2 ''pip3.6.exe''" "exists ?d2 ''python3.6.exe''"
    "\<not> removable ?d2 ''python3.6.exe''"
    by (simp_all add: removable_def exists_def)
  from b r have "\<not> exists (files (snd (unlink_commands ?v ?s2))) ''pip3.6.exe''"
    "Failed_to_remove ''python3.6.exe'' \<in> set (console (snd (unlink_commands ?v ?s2)))"
    unfolding cmds f2 by simp_all
  with first r show ?thesis by simp
qed

section \<open>Shim pairs\<close>

lemma publish_shim_run:
  "\<not> (\<not> overwrite \<and> exists (files s) target) \<Longrightarrow>
   publish_shim h target text overwrite quiet s =
     (case write_text (files s) (with_suffix target ''.shim'') text of
        Inl e \<Rightarrow> (Inl e, if \<not> quiet then echo (Published target) s else s)
      | Inr d \<Rightarrow>
          (case copy2 (generic_shim h) d target of
             Inl e \<Rightarrow> (Inl e, (if \<not> quiet then echo (Published target) s else s)\<lparr>files := d\<rparr>)
           | Inr d' \<Rightarrow> (Inr (), (if \<not> quiet then echo (Published target) s else s)\<lparr>files := d'\<rparr>)))"
  by (cases quiet) (auto simp: publish_shim_def files_echo Let_def)

text \<open>
  C8, as the code has it. A \<open>publish_shim\<close> that is not skipped and completes, on a target
  that is not a directory and is not its own sidecar name, leaves the dispatcher copy
  under the target and the sidecar holding the given path; a skipped one changes nothing.
  After \<open>unlink_commands\<close>, of each declared command and its sidecar, exactly those
  remain that were there and could not be removed: both are gone when neither removal
  fails, and when the removal of one fails the other is removed all the same.
\<close>

theorem shim_pair_published_and_removed:
  "(fst (publish_shim h target text overwrite quiet s) = Inr ()
      \<and> (overwrite \<or> \<not> exists (files s) target)
      \<and> map_of (files s) target \<noteq> Some Dir
      \<and> with_suffix target ''.shim'' \<noteq> target
    \<longrightarrow> map_of (files (snd (publish_shim h target text overwrite quiet s))) target
          = Some (File (generic_shim h) False)
        \<and> map_of (files (snd (publish_shim h target text overwrite quiet s)))
            (with_suffix target ''.shim'') = Some (File text False))
   \<and> (\<not> overwrite \<and> exists (files s) target
        \<longrightarrow> publish_shim h target text overwrite quiet s = (Inr (), s))
   \<and> (\<forall>p \<in> set (python_commands v @ pip_commands v). \<forall>q \<in> {p, with_suffix p ''.shim''}.
         exists (files (snd (unlink_commands v s))) q
           = (exists (files s) q \<and> \<not> removable (files s) q))"
proof (intro conjI impI ballI)
  assume a: "fst (publish_shim h target text overwrite quiet s) = Inr ()
      \<and> (overwrite \<or> \<not> exists (files s) target)
      \<and> map_of (files s) target \<noteq> Some Dir
      \<and> with_suffix target ''.shim'' \<noteq> target"
  let ?sc = "with_suffix target ''.shim''"
  let ?s1 = "if \<not> quiet then echo (Published target) s else s"
  from a have go: "\<not> (\<not> overwrite \<and> exists (files s) target)" by blast
  note run = publish_shim_run [OF go, of h "text" quiet]
  from a obtain d where w: "write_text (files s) ?sc text = Inr d"
    unfolding run by (cases "write_text (files s) ?sc text") auto
  then have d: "d = AList.update ?sc (File text False) (files s)"
    by (auto simp: write_text_def split: option.splits node.splits if_splits)
  from a w obtain d' where c: "copy2 (generic_shim h) d target = Inr d'"
    unfolding run by (cases "copy2 (generic_shim h) d target") auto
  from a have "map_of d target \<noteq> Some Dir" unfolding d by (simp add: update_conv')
  with c have d': "d' = AList.update target (File (generic_shim h) False) d"
    by (auto simp: copy2_def split: option.splits node.splits if_splits)
  have res: "files (snd (publish_shim h target text overwrite quiet s)) = d'"
    unfolding run using w c by simp
  show "map_of (files (snd (publish_shim h target text overwrite quiet s))) target
          = Some (File (generic_shim h) False)"
    unfolding res d' by (simp add: update_conv')
  show "map_of (files (snd (publish_shim h target text overwrite quiet s))) ?sc
          = Some (File text False)"
    unfolding res d' d using a by (simp add: update_conv')
next
  assume "\<not> overwrite \<and> exists (files s) target"
  then show "publish_shim h target text overwrite quiet s = (Inr (), s)"
    by (simp add: publish_shim_def)
next
  fix p q
  assume "p \<in> set (python_commands v @ pip_commands v)" "q \<in> {p, with_suffix p ''.shim''}"
  then have "q \<in> set (python_commands v @ pip_commands v)
                 \<union> (\<lambda>p. with_suffix p ''.shim'') ` set (python_commands v @ pip_commands v)"
    by blast
  then show "exists (files (snd (unlink_commands v s))) q
           = (exists (files s) q \<and> \<not> removable (files s) q)"
    unfolding unlink_commands_def unlink_each_exists by simp
qed

theorem shim_pair_published_and_removed_witness:
  "fst (publish_shim example_host ''python3.exe'' ''Python3.6/python.exe'' False True
          (example_state [(''python3.6.exe'', File ''MZ'' False),
                          (''python3.6.shim'', File ''Python3.6/python.exe'' False)] None)) = Inr ()
   \<and> with_suffix ''python3.exe'' ''.shim'' = ''python3.shim''
   \<and> map_of (files (snd (publish_shim example_host ''python3.exe'' ''Python3.6/python.exe'' False True
          (example_state [(''python3.6.exe'', File ''MZ'' False),
                          (''python3.6.shim'', File ''Python3.6/python.exe'' False)] None))))
        ''python3.exe'' = Some (File ''MZ'' False)
   \<and> map_of (files (snd (publish_shim example_host ''python3.exe'' ''Python3.6/python.exe'' False True
          (example_state [(''python3.6.exe'', File ''MZ'' False),
                          (''python3.6.shim'', File ''Python3.6/python.exe'' False)] None))))
        ''python3.shim'' = Some (File ''Python3.6/python.exe'' False)
   \<and> \<not> exists (files (snd (unlink_commands (example_version ''3.6'' ''3'' None)
          (example_state [(''python3.6.exe'', File ''MZ'' False),
                          (''python3.6.shim'', File ''Python3.6/python.exe'' False)] None))))
        ''python3.6.exe''
   \<and> \<not> exists (files (snd (unlink_commands (example_version ''3.6'' ''3'' None)
          (example_state [(''python3.6.exe'', File ''MZ'' False),
                          (''python3.6.shim'', File ''Python3.6/python.exe'' False)] None))))
        ''python3.6.shim''"
proof -
  let ?s = "example_state [(''python3.6.exe'', File ''MZ'' False),
                          (''python3.6.shim'', File ''Python3.6/python.exe'' False)] None"
  let ?v = "example_version ''3.6'' ''3'' None"
  note inst = shim_pair_published_and_removed
    [of example_host "''python3.exe''" "''Python3.6/python.exe''" False True ?s ?v]
  have sc: "with_suffix ''python3.exe'' ''.shim'' = ''python3.shim''" by code_simp
  have hyp: "fst (publish_shim example_host ''python3.exe'' ''Python3.6/python.exe'' False True ?s) = Inr ()
      \<and> (False \<or> \<not> exists (files ?s) ''python3.exe'')
      \<and> map_of (files ?s) ''python3.exe'' \<noteq> Some Dir
      \<and> with_suffix ''python3.exe'' ''.shim'' \<noteq> ''python3.exe''"
    by code_simp
  with inst have pub:
    "map_of (files (snd (publish_shim example_host ''python3.exe'' ''Python3.6/python.exe'' False True ?s)))
        ''python3.exe'' = Some (File (generic_shim example_host) False)
     \<and> map_of (files (snd (publish_shim example_host ''python3.exe'' ''Python3.6/python.exe'' False True ?s)))
        (with_suffix ''python3.exe'' ''.shim'') = Some (File ''Python3.6/python.exe'' False)"
    by blast
  have mem: "''python3.6.exe'' \<in> set (python_commands ?v @ pip_commands ?v)"
    by (simp add: example_version_def)
  have sc2: "with_suffix ''python3.6.exe'' ''.shim'' = ''python3.6.shim''" by code_simp
  from inst have "\<forall>p \<in> set (python_commands ?v @ pip_commands ?v). \<forall>q \<in> {p, with_suffix p ''.shim''}.
         exists (files (snd (unlink_commands ?v ?s))) q
           = (exists (files ?s) q \<and> \<not> removable (files ?s) q)"
    by blast
  from bspec [OF this mem]
  have un: "exists (files (snd (unlink_commands ?v ?s))) ''python3.6.exe''
           = (exists (files ?s) ''python3.6.exe'' \<and> \<not> removable (files ?s) ''python3.6.exe'')"
      "exists (files (snd (unlink_commands ?v ?s))) ''python3.6.shim''
           = (exists (files ?s) ''python3.6.shim'' \<and> \<not> removable (files ?s) ''python3.6.shim'')"
    by (simp_all add: sc2)
  have rm: "removable (files ?s) ''python3.6.exe''" "removable (files ?s) ''python3.6.shim''"
    by (simp_all add: example_state_def removable_def)
  from hyp pub un rm sc show ?thesis
    by (simp add: example_host_def)
qed

text \<open>
  A dispatcher copy in use and its sidecar: \<open>unlink_commands\<close> completes, the sidecar is
  removed and the dispatcher copy is left without it.
\<close>

theorem unlink_leaves_dispatcher_counterexample:
  "python_commands (example_version ''3.6'' ''3'' None) = [''python3.6.exe'']
   \<and> with_suffix ''python3.6.exe'' ''.shim'' = ''python3.6.shim''
   \<and> exists [(''python3.6.exe'', File ''MZ'' True),
              (''python3.6.shim'', File ''Python3.6/python.exe'' False)] ''python3.6.exe''
   \<and> exists [(''python3.6.exe'', File ''MZ'' True),
              (''python3.6.shim'', File ''Python3.6/python.exe'' False)] ''python3.6.shim''
   \<and> unlink_commands (example_version ''3.6'' ''3'' None)
        (example_state [(''python3.6.exe'', File ''MZ'' True),
                        (''python3.6.shim'', File ''Python3.6/python.exe'' False)] None)
      = (Inr (), \<lparr>files = [(''python3.6.exe'', File ''MZ'' True)], python_versions = None,
                  console = [Unlinking ''python3.6.exe'', Failed_to_remove ''python3.6.exe'',
                             Unlinking ''pip3.6.exe'']\<rparr>)"
  by code_simp

section \<open>Integrity of downloads\<close>

text \<open>
  C2, as the code has it. \<open>save_installer\<close> fails with DownloadIntegrityError whenever
  the checksum of the payload differs from the stored one, and then leaves the directory
  as it was. When the checksums are equal and the target can be opened for writing, it
  succeeds and the target holds the payload. When the checksums are equal and the target
  cannot be opened for writing (a directory, or a file in use), it fails with the
  operating system's error and nothing is written.
\<close>

theorem save_installer_checked:
  "(md5 data \<noteq> md5_sum v \<longrightarrow>
      save_installer md5 v data into_path d
        = (Inl (DownloadIntegrityError (md5_sum v) (md5 data)), d))
   \<and> (md5 data = md5_sum v \<and> writable d into_path \<longrightarrow>
        fst (save_installer md5 v data into_path d) = Inr ()
        \<and> map_of (snd (save_installer md5 v data into_path d)) into_path = Some (File data False))
   \<and> (md5 data = md5_sum v \<and> \<not> writable d into_path \<longrightarrow>
        save_installer md5 v data into_path d = (Inl (PermissionError into_path), d))"
  by (auto simp: save_installer_def writable_def write_text_def update_conv'
           split: option.splits node.splits)

theorem save_installer_checked_witness:
  "example_md5 ''MZ'' \<noteq> md5_sum (example_version ''3.6'' ''3'' None)
   \<and> save_installer example_md5 (example_version ''3.6'' ''3'' None) ''MZ'' ''python-3.6.exe'' []
       = (Inl (DownloadIntegrityError ''d41d8cd9'' ''00000000''), [])
   \<and> example_md5 [] = md5_sum (example_version ''3.6'' ''3'' None)
   \<and> writable [] ''python-3.6.exe''
   \<and> fst (save_installer example_md5 (example_version ''3.6'' ''3'' None) [] ''python-3.6.exe'' [])
       = Inr ()
   \<and> \<not> writable [(''python-3.6.exe'', Dir)] ''python-3.6.exe''
   \<and> save_installer example_md5 (example_version ''3.6'' ''3'' None) [] ''python-3.6.exe''
         [(''python-3.6.exe'', Dir)]
       = (Inl (PermissionError ''python-3.6.exe''), [(''python-3.6.exe'', Dir)])"
  using save_installer_checked [of example_md5 "''MZ''" "example_version ''3.6'' ''3'' None"
          "''python-3.6.exe''" "[]"]
        save_installer_checked [of example_md5 "[]" "example_version ''3.6'' ''3'' None"
          "''python-3.6.exe''" "[]"]
        save_installer_checked [of example_md5 "[]" "example_version ''3.6'' ''3'' None"
          "''python-3.6.exe''" "[(''python-3.6.exe'', Dir)]"]
  by (simp add: example_md5_def example_version_def writable_def)

text \<open>
  Equal checksums do not suffice for success: the target here is an existing directory.
\<close>

theorem save_installer_directory_counterexample:
  "example_md5 [] = md5_sum (example_version ''3.6'' ''3'' None)
   \<and> fst (save_installer example_md5 (example_version ''3.6'' ''3'' None) [] ''python-3.6.exe''
           [(''python-3.6.exe'', Dir)])
       = Inl (PermissionError ''python-3.6.exe'')"
  by (simp add: save_installer_def example_md5_def example_version_def write_text_def)

section \<open>Resolution on a 32-bit host\<close>

text \<open>
  C3. On a host that cannot run 64-bit binaries, with catalog entries \<open>3.6.3\<close> and
  \<open>3.6.3-32\<close>, resolving \<open>3.6.3\<close> returns no descriptor: \<open>get_version\<close> passes the
  keyword \<open>force_32\<close>, which \<open>versions.get_version\<close> does not declare, so the call
  raises TypeError and no notice is printed. The body of \<open>versions.get_version\<close> is an
  exact lookup: on its own it yields the entry \<open>3.6.3\<close>, never \<open>3.6.3-32\<close>.
\<close>

theorem get_version_rejects_force_32:
  "\<not> can_install_64bit example_host
   \<and> catalog example_host ''3.6.3-32'' = Some (example_version ''3.6.3-32'' ''3'' None)
   \<and> get_version example_host ''3.6.3'' s = (Inl TypeError, s)
   \<and> versions_get_version (catalog example_host) ''3.6.3''
       = Inr (example_version ''3.6.3'' ''3'' None)"
  by (simp add: get_version_def call_versions_get_version_def versions_get_version_def
        example_host_def example_version_def)

section \<open>Order of the active versions after a removal\<close>

text \<open>
  C4. With the persisted names \<open>3.6\<close>, \<open>2.7\<close>, \<open>3.5\<close> and the removal of \<open>3.5\<close>, on a
  host whose set iteration yields \<open>2.7\<close> before \<open>3.6\<close>: the names left after the removal
  are \<open>2.7\<close>, \<open>3.6\<close>, not in their prior order \<open>3.6\<close>, \<open>2.7\<close>, since
  \<open>update_active_versions\<close> takes them from a set. Resolving them then fails in
  \<open>get_version\<close> with TypeError, so the persisted list is left as it was; had the names
  been resolved, \<open>activate\<close> would have persisted them in the order \<open>2.7\<close>, \<open>3.6\<close>.
\<close>

theorem update_active_versions_reorders:
  "get_active_names (example_state [] (Some ''3.6\<newline>2.7\<newline>3.5'')) = [''3.6'', ''2.7'', ''3.5'']
   \<and> fst (remove_each [example_version ''3.5'' ''3'' None]
          (set_iter (set_order example_host)
             (get_active_names (example_state [] (Some ''3.6\<newline>2.7\<newline>3.5''))))
          (example_state [] (Some ''3.6\<newline>2.7\<newline>3.5'')))
       = [''2.7'', ''3.6'']
   \<and> fst (update_active_versions example_host [example_version ''3.5'' ''3'' None]
            (example_state [] (Some ''3.6\<newline>2.7\<newline>3.5''))) = Inl TypeError
   \<and> python_versions (snd (update_active_versions example_host [example_version ''3.5'' ''3'' None]
            (example_state [] (Some ''3.6\<newline>2.7\<newline>3.5'')))) = Some ''3.6\<newline>2.7\<newline>3.5''
   \<and> python_versions (snd (activate example_host
            [example_version ''2.7'' ''2'' None, example_version ''3.6'' ''3'' None] True False
            (example_state [] (Some ''3.6\<newline>2.7\<newline>3.5'')))) = Some ''2.7\<newline>3.6''"
  by code_simp

end
